theory Spec2Isabelle
  imports Main "HOL-Library.Word"
begin

section \<open>Sqrat bytecode buffer (sqratBytecode.h)\<close>

text \<open>
  A shallow embedding of class \<open>Sqrat::Bytecode\<close> and of the two callbacks
  \<open>BytecodeReader\<close> and \<open>BytecodeWriter\<close>.

  Conventions of the embedding.
  \<^item> \<open>size_t\<close>, \<open>SQInteger\<close>, \<open>SQRESULT\<close> and \<open>long\<close> are 64-bit words, the last three read as
    two's complement by \<open>sint\<close> (an LP64 platform, where squirrel.h makes \<open>SQInteger\<close> 64 bits wide).
    Unsigned arithmetic wraps around, as in C++.
  \<^item> The storage behind \<open>m_data\<close> is owned by the buffer alone, so the pointer is modelled
    by what it points to: nothing (\<open>Null\<close>), a live block with its bytes (\<open>Ptr\<close>), or a block
    that has been given back to the allocator while the pointer value is kept (\<open>Dangling\<close>).
  \<^item> Undefined behaviour of the C library calls (use of a released block, release of a
    released block, a copy that leaves a block) is a \<open>fault\<close>, the \<open>Inl\<close> branch of each
    operation.
  \<^item> Every member function maps the object before the call to the object after it, and
    returns what the C++ function returns beside it.
  \<^item> The source of SetData and of AppendData is a pointer: to memory outside the buffer, or
    into the buffer's own block (as \<open>Data()\<close> plus an offset), which the function may have
    released by the time it copies.
  \<^item> Allocation is taken to succeed, since the source never tests its result; the bytes of
    a fresh block are whatever the environment holds (\<open>junk\<close>).
\<close>

subsection \<open>Machine types and constants\<close>

type_synonym byte = "8 word"
type_synonym size_t = "64 word"
type_synonym SQInteger = "64 word"
type_synonym SQRESULT = "64 word"

text \<open>The two result codes of squirrel.h: \<open>#define SQ_OK (0)\<close> and \<open>#define SQ_ERROR (-1)\<close>.\<close>

definition SQ_OK :: SQRESULT where
  "SQ_OK = 0"

definition SQ_ERROR :: SQRESULT where
  "SQ_ERROR = - 1"

subsection \<open>Memory and the C library\<close>

datatype fault = NullDeref | UseAfterFree | DoubleFree | OutOfBounds | WildPointer

datatype ptr = Null | Ptr "byte list" | Dangling

text \<open>
  The environment of a call: the files that can be opened for reading and their bytes,
  how many bytes a read or a write of a path manages before the device fails (\<open>None\<close>: no
  failure), which paths can be opened for writing, and the content of fresh memory.
\<close>

record env =
  files :: "string \<Rightarrow> byte list option"
  fread_limit :: "string \<Rightarrow> nat option"
  fopen_wb_ok :: "string \<Rightarrow> bool"
  fwrite_limit :: "string \<Rightarrow> nat option"
  junk :: "nat \<Rightarrow> byte"

definition malloc :: "env \<Rightarrow> nat \<Rightarrow> ptr" where
  "malloc e n = Ptr (map (junk e) [0..<n])"

fun free :: "ptr \<Rightarrow> fault + ptr" where
  "free Null = Inr Null"
| "free (Ptr blk) = Inr Dangling"
| "free Dangling = Inl DoubleFree"

fun realloc :: "env \<Rightarrow> ptr \<Rightarrow> nat \<Rightarrow> fault + ptr" where
  "realloc e Null n = Inr (malloc e n)"
| "realloc e (Ptr blk) n = Inr (Ptr (take n blk @ map (junk e) [length blk..<n]))"
| "realloc e Dangling n = Inl UseAfterFree"

text \<open>\<open>memcpy(p + off, src, n)\<close>: \<open>n\<close> bytes of the source \<open>src\<close> into the block behind \<open>p\<close>.\<close>

fun memcpy_to :: "ptr \<Rightarrow> nat \<Rightarrow> byte list \<Rightarrow> nat \<Rightarrow> fault + ptr" where
  "memcpy_to Null off src n = Inl NullDeref"
| "memcpy_to Dangling off src n = Inl UseAfterFree"
| "memcpy_to (Ptr blk) off src n =
     (if off + n \<le> length blk \<and> n \<le> length src
      then Inr (Ptr (take off blk @ take n src @ drop (off + n) blk))
      else Inl OutOfBounds)"

text \<open>
  \<open>memcpy(dst, p + off, n)\<close>: the \<open>n\<close> bytes of the block behind \<open>p\<close> from offset \<open>off\<close>, which
  the destination receives.
\<close>

fun memcpy_from :: "ptr \<Rightarrow> nat \<Rightarrow> nat \<Rightarrow> fault + byte list" where
  "memcpy_from Null off n = Inl NullDeref"
| "memcpy_from Dangling off n = Inl UseAfterFree"
| "memcpy_from (Ptr blk) off n =
     (if off + n \<le> length blk then Inr (take n (drop off blk)) else Inl OutOfBounds)"

text \<open>
  Where the \<open>data\<close> argument of SetData and AppendData points: to memory outside the
  buffer, given with the bytes it holds, or into the block that \<open>m_data\<close> held when the call
  was made, at an offset.
\<close>

datatype source = Extern "byte list" | Own nat

text \<open>
  What a pointer to a block is worth once the block has gone through \<open>free\<close> or
  \<open>realloc\<close>: both deallocate the old object.
\<close>

fun released :: "ptr \<Rightarrow> ptr" where
  "released Null = Null"
| "released (Ptr blk) = Dangling"
| "released Dangling = Dangling"

text \<open>
  \<open>memcpy(p + off, data, n)\<close> for such a source; \<open>own\<close> is what has become of the block
  that a source of the second kind points into.
\<close>

fun memcpy :: "ptr \<Rightarrow> nat \<Rightarrow> ptr \<Rightarrow> source \<Rightarrow> nat \<Rightarrow> fault + ptr" where
  "memcpy p off own (Extern bs) n = memcpy_to p off bs n"
| "memcpy p off own (Own i) n =
     (case memcpy_from own i n of
        Inl f \<Rightarrow> Inl f
      | Inr bs \<Rightarrow> memcpy_to p off bs n)"

text \<open>The counts that \<open>fread\<close> and \<open>fwrite\<close> return for a request of \<open>n\<close> bytes.\<close>

definition fread :: "env \<Rightarrow> string \<Rightarrow> byte list \<Rightarrow> nat \<Rightarrow> nat" where
  "fread e filename contents n =
     (case fread_limit e filename of
        None \<Rightarrow> min n (length contents)
      | Some k \<Rightarrow> min k (min n (length contents)))"

definition fwrite :: "env \<Rightarrow> string \<Rightarrow> nat \<Rightarrow> nat" where
  "fwrite e filename n =
     (case fwrite_limit e filename of None \<Rightarrow> n | Some k \<Rightarrow> min k n)"

subsection \<open>The class\<close>

record Bytecode =
  m_data :: ptr
  m_size :: size_t
  m_readpos :: size_t

text \<open>The default constructor.\<close>

definition Bytecode_new :: Bytecode where
  "Bytecode_new = \<lparr>m_data = Null, m_size = 0, m_readpos = 0\<rparr>"

text \<open>\<open>if (m_data) { free(m_data); }\<close>, the opening of LoadFromFile and of SetData.\<close>

definition free_if_set :: "ptr \<Rightarrow> fault + ptr" where
  "free_if_set p = (if p \<noteq> Null then free p else Inr p)"

definition SaveToFile :: "env \<Rightarrow> Bytecode \<Rightarrow> string \<Rightarrow> fault + (SQRESULT \<times> Bytecode \<times> env)" where
  "SaveToFile e b filename =
     (if m_data b = Null \<or> m_size b \<le> 0 then Inr (SQ_ERROR, b, e)
      else if fopen_wb_ok e filename then
        (let e1 = e\<lparr>files := (files e)(filename \<mapsto> [])\<rparr> in
         case memcpy_from (m_data b) 0 (unat (m_size b)) of
           Inl f \<Rightarrow> Inl f
         | Inr bytes \<Rightarrow>
             (let bytes_written = fwrite e1 filename (unat (m_size b));
                  e2 = e1\<lparr>files := (files e1)(filename \<mapsto> take bytes_written bytes)\<rparr>
              in if (of_nat bytes_written :: size_t) = m_size b
                 then Inr (SQ_OK, b, e2) else Inr (SQ_ERROR, b, e2)))
      else Inr (SQ_ERROR, b, e))"

definition LoadFromFile :: "env \<Rightarrow> Bytecode \<Rightarrow> string \<Rightarrow> fault + (SQRESULT \<times> Bytecode)" where
  "LoadFromFile e b filename =
     (case free_if_set (m_data b) of
        Inl f \<Rightarrow> Inl f
      | Inr p \<Rightarrow>
          (let b1 = b\<lparr>m_data := p\<rparr> in
           case files e filename of
             None \<Rightarrow> Inr (SQ_ERROR, b1)
           | Some contents \<Rightarrow>
               (let fsize = (of_nat (length contents) :: 64 word) in
                if fsize = 0 then Inr (SQ_ERROR, b1)
                else
                  (let b2 = b1\<lparr>m_size := (scast fsize :: size_t)\<rparr>;
                       b3 = b2\<lparr>m_data := malloc e (unat (m_size b2))\<rparr>;
                       bytes_read = fread e filename contents (unat (m_size b3))
                   in case memcpy_to (m_data b3) 0 contents bytes_read of
                        Inl f \<Rightarrow> Inl f
                      | Inr q \<Rightarrow>
                          (let b4 = b3\<lparr>m_data := q\<rparr>
                           in if (of_nat bytes_read :: size_t) = m_size b4
                              then Inr (SQ_OK, b4) else Inr (SQ_ERROR, b4))))))"

definition Data :: "Bytecode \<Rightarrow> ptr" where
  "Data b = m_data b"

text \<open>
  In SetData the block is freed before the copy, in AppendData it goes through \<open>realloc\<close>
  before the copy: a source that points into it is read in the state that leaves.
\<close>

definition SetData :: "env \<Rightarrow> Bytecode \<Rightarrow> source \<Rightarrow> size_t \<Rightarrow> fault + (SQRESULT \<times> Bytecode)" where
  "SetData e b src sz =
     (case free_if_set (m_data b) of
        Inl f \<Rightarrow> Inl f
      | Inr p \<Rightarrow>
          (case memcpy (malloc e (unat sz)) 0 p src (unat sz) of
             Inl f \<Rightarrow> Inl f
           | Inr q \<Rightarrow> Inr (SQ_OK, b\<lparr>m_data := q, m_size := sz, m_readpos := 0\<rparr>)))"

definition AppendData :: "env \<Rightarrow> Bytecode \<Rightarrow> source \<Rightarrow> size_t \<Rightarrow> fault + (SQInteger \<times> Bytecode)" where
  "AppendData e b src sz =
     (case (if m_data b = Null then Inr (malloc e (unat sz))
            else realloc e (m_data b) (unat (m_size b + sz))) of
        Inl f \<Rightarrow> Inl f
      | Inr p \<Rightarrow>
          (case memcpy p (unat (m_size b)) (released (m_data b)) src (unat sz) of
             Inl f \<Rightarrow> Inl f
           | Inr q \<Rightarrow>
               Inr (ucast sz :: SQInteger, b\<lparr>m_data := q, m_size := m_size b + sz\<rparr>)))"

text \<open>
  ReadData returns its count, the bytes written to the destination, and the object.
\<close>

definition ReadData :: "Bytecode \<Rightarrow> size_t \<Rightarrow> fault + (SQInteger \<times> byte list \<times> Bytecode)" where
  "ReadData b sz =
     (if m_data b = Null \<or> m_size b = 0 \<or> m_readpos b = m_size b then Inr (- 1, [], b)
      else
        (let bytes_to_read =
               (if m_readpos b + sz \<le> m_size b then sz else m_size b - m_readpos b)
         in case memcpy_from (m_data b) (unat (m_readpos b)) (unat bytes_to_read) of
              Inl f \<Rightarrow> Inl f
            | Inr out \<Rightarrow>
                Inr (ucast bytes_to_read :: SQInteger, out,
                     b\<lparr>m_readpos := m_readpos b + bytes_to_read\<rparr>)))"

definition Size :: "Bytecode \<Rightarrow> size_t" where
  "Size b = m_size b"

subsection \<open>The callbacks\<close>

text \<open>
  \<open>user_data\<close> is an address; the objects that live at addresses are a heap. The
  \<open>reinterpret_cast\<close> reads the object at the address, the call through the pointer updates
  it in place. An address that holds no \<open>Bytecode\<close> is a fault.
\<close>

type_synonym heap = "nat \<Rightarrow> Bytecode option"

definition BytecodeReader :: "heap \<Rightarrow> nat \<Rightarrow> SQInteger \<Rightarrow> fault + (SQInteger \<times> byte list \<times> heap)" where
  "BytecodeReader h user_data sz =
     (case h user_data of
        None \<Rightarrow> Inl WildPointer
      | Some bytecode \<Rightarrow>
          (case ReadData bytecode (scast sz :: size_t) of
             Inl f \<Rightarrow> Inl f
           | Inr (r, out, bytecode') \<Rightarrow> Inr (r, out, h(user_data \<mapsto> bytecode'))))"

definition BytecodeWriter ::
  "env \<Rightarrow> heap \<Rightarrow> nat \<Rightarrow> source \<Rightarrow> SQInteger \<Rightarrow> fault + (SQInteger \<times> heap)" where
  "BytecodeWriter e h user_data src sz =
     (case h user_data of
        None \<Rightarrow> Inl WildPointer
      | Some bytecode \<Rightarrow>
          (case AppendData e bytecode src (scast sz :: size_t) of
             Inl f \<Rightarrow> Inl f
           | Inr (r, bytecode') \<Rightarrow> Inr (r, h(user_data \<mapsto> bytecode'))))"

subsection \<open>Predicates on buffer states\<close>

text \<open>
  The storage is in order when \<open>m_data\<close> is null with no bytes counted, or points to a live
  block of exactly \<open>m_size\<close> bytes. The cursor is in order when it has not passed the end.
\<close>

definition storage_ok :: "Bytecode \<Rightarrow> bool" where
  "storage_ok b =
     (case m_data b of
        Null \<Rightarrow> m_size b = 0
      | Ptr blk \<Rightarrow> length blk = unat (m_size b)
      | Dangling \<Rightarrow> False)"

definition cursor_ok :: "Bytecode \<Rightarrow> bool" where
  "cursor_ok b = (m_readpos b \<le> m_size b)"

definition contents :: "Bytecode \<Rightarrow> byte list" where
  "contents b = (case m_data b of Ptr blk \<Rightarrow> blk | _ \<Rightarrow> [])"

subsection \<open>A client that drains the buffer\<close>

text \<open>
  A caller that reads with the request sizes \<open>ks\<close> in turn, collects what each call
  delivers, and stops at the first call that returns \<open>-1\<close>.
\<close>

fun drain :: "size_t list \<Rightarrow> Bytecode \<Rightarrow> fault + (byte list \<times> Bytecode)" where
  "drain [] b = Inr ([], b)"
| "drain (k # ks) b =
     (case ReadData b k of
        Inl f \<Rightarrow> Inl f
      | Inr (r, out, b') \<Rightarrow>
          (if r = - 1 then Inr ([], b')
           else (case drain ks b' of
                   Inl f \<Rightarrow> Inl f
                 | Inr (rest, b'') \<Rightarrow> Inr (out @ rest, b''))))"

text \<open>SetData followed by such a caller.\<close>

definition set_then_drain ::
  "env \<Rightarrow> Bytecode \<Rightarrow> source \<Rightarrow> size_t \<Rightarrow> size_t list \<Rightarrow> fault + (byte list \<times> Bytecode)" where
  "set_then_drain e b src sz ks =
     (case SetData e b src sz of
        Inl f \<Rightarrow> Inl f
      | Inr (st, b1) \<Rightarrow> drain ks b1)"

subsection \<open>Concrete environments and states\<close>

text \<open>
  An environment with one file of two bytes, in which every path can be written, no device
  fails and fresh memory holds zeros; and the same with a device that accepts one byte.
\<close>

definition env0 :: env where
  "env0 = \<lparr>files = (\<lambda>p. if p = ''two.bin'' then Some [9, 8] else None),
           fread_limit = (\<lambda>p. None),
           fopen_wb_ok = (\<lambda>p. True),
           fwrite_limit = (\<lambda>p. None),
           junk = (\<lambda>i. 0)\<rparr>"

definition env_full :: env where
  "env_full = env0\<lparr>fwrite_limit := (\<lambda>p. Some 1)\<rparr>"

text \<open>A buffer of three bytes, unread, read up to the second byte, and read to the end.\<close>

definition abc0 :: Bytecode where
  "abc0 = \<lparr>m_data = Ptr [1, 2, 3], m_size = 3, m_readpos = 0\<rparr>"

definition abc1 :: Bytecode where
  "abc1 = \<lparr>m_data = Ptr [1, 2, 3], m_size = 3, m_readpos = 1\<rparr>"

definition abc3 :: Bytecode where
  "abc3 = \<lparr>m_data = Ptr [1, 2, 3], m_size = 3, m_readpos = 3\<rparr>"

text \<open>
  The three-byte buffer after its storage was released with the pointer and the count
  kept, and a two-byte buffer whose cursor stands at 3.
\<close>

definition abc_released :: Bytecode where
  "abc_released = \<lparr>m_data = Dangling, m_size = 3, m_readpos = 0\<rparr>"

definition two3 :: Bytecode where
  "two3 = \<lparr>m_data = Ptr [9, 8], m_size = 2, m_readpos = 3\<rparr>"

text \<open>A heap with the buffer \<open>abc1\<close> at address 16.\<close>

definition heap0 :: heap where
  "heap0 = (\<lambda>a. if a = 16 then Some abc1 else None)"

section \<open>Properties\<close>

subsection \<open>Word arithmetic and the single operations\<close>

lemma size_t_add_le:
  fixes p sz n :: size_t
  assumes "unat p + unat sz < 2 ^ 64"
  shows "(p + sz \<le> n) = (unat p + unat sz \<le> unat n)"
proof -
  have "unat (p + sz) = unat p + unat sz"
    using assms by (simp add: unat_add_lem [THEN iffD1])
  then show ?thesis by (simp add: word_le_nat_alt)
qed

text \<open>
  ReadData on a buffer in order, for a request that does not make cursor plus request wrap:
  the sentinel when nothing is left, otherwise the smaller of the request and the rest.
\<close>

lemma ReadData_sentinel:
  "m_data b = Null \<or> m_size b = 0 \<or> m_readpos b = m_size b \<Longrightarrow> ReadData b sz = Inr (- 1, [], b)"
  by (simp add: ReadData_def)

lemma ReadData_in_range:
  assumes st: "storage_ok b" and cur: "cursor_ok b"
    and fit: "unat (m_readpos b) + unat sz < 2 ^ 64"
    and more: "m_readpos b \<noteq> m_size b"
  defines "k \<equiv> min (unat sz) (unat (m_size b) - unat (m_readpos b))"
  shows "ReadData b sz =
           Inr (of_nat k, take k (drop (unat (m_readpos b)) (contents b)),
                b\<lparr>m_readpos := m_readpos b + of_nat k\<rparr>)"
proof -
  have le: "unat (m_readpos b) \<le> unat (m_size b)"
    using cur by (simp add: cursor_ok_def word_le_nat_alt)
  have ne: "m_size b \<noteq> 0"
    using cur more by (auto simp: cursor_ok_def)
  obtain blk where blk: "m_data b = Ptr blk" "length blk = unat (m_size b)"
    using st ne by (auto simp: storage_ok_def split: ptr.splits)
  show ?thesis
  proof (cases "unat (m_readpos b) + unat sz \<le> unat (m_size b)")
    case True
    then have k: "k = unat sz" by (simp add: k_def)
    have c: "m_readpos b + sz \<le> m_size b"
      using True fit by (simp add: size_t_add_le)
    show ?thesis
      using True blk ne more c by (simp add: ReadData_def k contents_def)
  next
    case False
    then have k: "k = unat (m_size b) - unat (m_readpos b)" by (simp add: k_def)
    have c: "\<not> m_readpos b + sz \<le> m_size b"
      using False fit by (simp add: size_t_add_le)
    have u: "unat (m_size b - m_readpos b) = unat (m_size b) - unat (m_readpos b)"
      using cur by (simp add: cursor_ok_def unat_sub)
    have w: "(of_nat (unat (m_size b) - unat (m_readpos b)) :: size_t) = m_size b - m_readpos b"
      by (metis u of_nat_unat ucast_id)
    show ?thesis
      using False blk ne more c le by (simp add: ReadData_def k contents_def u w)
  qed
qed


lemma sint_small:
  assumes "n < 2 ^ 63"
  shows "sint (of_nat n :: 64 word) = int n"
proof -
  have "int n < 2 ^ 63" using assms by (metis of_nat_less_iff of_nat_numeral of_nat_power)
  then show ?thesis
    by (simp add: signed_of_nat signed_take_bit_int_eq_self)
qed

lemma unat_max: "unat (- 1 :: 64 word) = 2 ^ 64 - 1"
  by (simp add: unsigned_minus_1_eq_mask mask_eq_exp_minus_1)

lemma unat_small:
  assumes "n < 2 ^ 64"
  shows "unat (of_nat n :: 64 word) = n"
  using assms by (simp add: unat_of_nat)

lemma memcpy_to_fresh:
  "n \<le> length src \<Longrightarrow> memcpy_to (malloc e n) 0 src n = Inr (Ptr (take n src))"
  by (simp add: malloc_def)

lemma SetData_result:
  assumes "m_data b \<noteq> Dangling" and "unat sz \<le> length src"
  shows "SetData e b (Extern src) sz =
           Inr (SQ_OK, b\<lparr>m_data := Ptr (take (unat sz) src), m_size := sz, m_readpos := 0\<rparr>)"
proof -
  have "\<exists>p. free_if_set (m_data b) = Inr p"
    using assms(1) by (cases "m_data b") (simp_all add: free_if_set_def)
  then show ?thesis
    using assms(2) by (auto simp: SetData_def memcpy_to_fresh)
qed

lemma AppendData_result:
  assumes st: "storage_ok b" and src: "unat sz \<le> length src"
    and fit: "unat (m_size b) + unat sz < 2 ^ 64"
  shows "AppendData e b (Extern src) sz =
           Inr (ucast sz, b\<lparr>m_data := Ptr (contents b @ take (unat sz) src),
                              m_size := m_size b + sz\<rparr>)"
proof (cases "m_data b")
  case Null
  then have z: "m_size b = 0" using st by (simp add: storage_ok_def)
  show ?thesis
    using Null z src by (simp add: AppendData_def memcpy_to_fresh contents_def)
next
  case (Ptr blk)
  then have len: "length blk = unat (m_size b)" using st by (simp add: storage_ok_def)
  have u: "unat (m_size b + sz) = unat (m_size b) + unat sz"
    using fit by (simp add: unat_add_lem [THEN iffD1])
  show ?thesis
    using Ptr len src by (simp add: AppendData_def contents_def u)
next
  case Dangling
  then show ?thesis using st by (simp add: storage_ok_def)
qed


lemma storage_ok_readpos [simp]: "storage_ok (b\<lparr>m_readpos := p\<rparr>) = storage_ok b"
  by (cases "m_data b") (simp_all add: storage_ok_def)

lemma contents_readpos [simp]: "contents (b\<lparr>m_readpos := p\<rparr>) = contents b"
  by (simp add: contents_def)

lemma length_contents: "storage_ok b \<Longrightarrow> length (contents b) = unat (m_size b)"
  by (auto simp: storage_ok_def contents_def split: ptr.splits)

lemma drain_reads:
  assumes "storage_ok b" and "cursor_ok b"
    and "\<forall>k\<in>set ks. unat (m_size b) + unat k < 2 ^ 64"
  shows "drain ks b =
           Inr (take (sum_list (map unat ks)) (drop (unat (m_readpos b)) (contents b)),
                b\<lparr>m_readpos := m_readpos b +
                  of_nat (min (sum_list (map unat ks)) (unat (m_size b) - unat (m_readpos b)))\<rparr>)"
  using assms
proof (induction ks arbitrary: b)
  case Nil
  then show ?case by simp
next
  case (Cons k ks)
  have le: "unat (m_readpos b) \<le> unat (m_size b)"
    using Cons.prems(2) by (simp add: cursor_ok_def word_le_nat_alt)
  have len: "length (contents b) = unat (m_size b)"
    using Cons.prems(1) by (rule length_contents)
  show ?case
  proof (cases "m_readpos b = m_size b")
    case True
    then show ?thesis
      by (simp add: ReadData_sentinel len)
  next
    case False
    define n where "n = min (unat k) (unat (m_size b) - unat (m_readpos b))"
    define b' where "b' = b\<lparr>m_readpos := m_readpos b + of_nat n\<rparr>"
    have lt: "unat (m_readpos b) < unat (m_size b)"
      using le False by (simp add: word_unat_eq_iff)
    have fitk: "unat (m_size b) + unat k < 2 ^ 64"
      using Cons.prems(3) by simp
    have fit: "unat (m_readpos b) + unat k < 2 ^ 64"
      using fitk le by simp
    have rd: "ReadData b k = Inr (of_nat n, take n (drop (unat (m_readpos b)) (contents b)), b')"
      unfolding n_def b'_def
      by (rule ReadData_in_range [OF Cons.prems(1) Cons.prems(2) fit False])
    have nle: "n \<le> unat (m_size b) - unat (m_readpos b)" and nk: "n \<le> unat k"
      by (simp_all add: n_def)
    have nsmall: "n < 2 ^ 64 - 1"
      using nk fitk lt by simp
    have un: "unat (of_nat n :: size_t) = n"
      using nsmall by (simp add: unat_small)
    have nosent: "(of_nat n :: SQInteger) \<noteq> - 1"
    proof
      assume "(of_nat n :: SQInteger) = - 1"
      then have "unat (of_nat n :: 64 word) = unat (- 1 :: 64 word)" by simp
      then show False using un nsmall by (simp add: unat_max)
    qed
    have pos': "unat (m_readpos b') = unat (m_readpos b) + n"
    proof -
      have "unat (m_readpos b) + unat (of_nat n :: size_t) < 2 ^ 64"
        using un nk fit by simp
      then show ?thesis
        by (simp add: b'_def un unat_add_lem [THEN iffD1])
    qed
    have st': "storage_ok b'" using Cons.prems(1) by (simp add: b'_def)
    have cur': "cursor_ok b'"
      using pos' nle lt by (simp add: cursor_ok_def word_le_nat_alt b'_def)
    have sz': "m_size b' = m_size b" by (simp add: b'_def)
    have bnd': "\<forall>k\<in>set ks. unat (m_size b') + unat k < 2 ^ 64"
      using Cons.prems(3) by (simp add: sz')
    have ih: "drain ks b' =
           Inr (take (sum_list (map unat ks)) (drop (unat (m_readpos b')) (contents b')),
                b'\<lparr>m_readpos := m_readpos b' +
                  of_nat (min (sum_list (map unat ks)) (unat (m_size b') - unat (m_readpos b')))\<rparr>)"
      by (rule Cons.IH [OF st' cur' bnd'])
    let ?s = "sum_list (map unat ks)"
    let ?p = "unat (m_readpos b)"
    let ?c = "contents b"
    have bytes: "take n (drop ?p ?c) @ take ?s (drop (?p + n) ?c) = take (unat k + ?s) (drop ?p ?c)"
    proof (cases "unat k \<le> unat (m_size b) - ?p")
      case True
      then have "n = unat k" by (simp add: n_def)
      then show ?thesis by (simp add: take_add add.commute)
    next
      case False
      then have "n = unat (m_size b) - ?p" by (simp add: n_def)
      then show ?thesis using False len by simp
    qed
    have count: "n + min ?s (unat (m_size b) - (?p + n)) = min (unat k + ?s) (unat (m_size b) - ?p)"
      using nle by (auto simp: n_def min_def)
    have cursor: "m_readpos b + of_nat n + of_nat (min ?s (unat (m_size b) - (?p + n)))
        = m_readpos b + (of_nat (min (unat k + ?s) (unat (m_size b) - ?p)) :: size_t)"
      by (simp add: count [symmetric] add.assoc)
    show ?thesis
      using rd nosent ih bytes cursor
      by (simp add: pos' sz') (simp add: b'_def)
  qed
qed


subsection \<open>Evaluations at concrete inputs\<close>

lemma storage_ok_abc [simp]: "storage_ok abc0" "storage_ok abc1" "storage_ok abc3"
  by (simp_all add: storage_ok_def abc0_def abc1_def abc3_def)

lemma cursor_ok_abc [simp]: "cursor_ok abc0" "cursor_ok abc1" "cursor_ok abc3"
  by (simp_all add: cursor_ok_def abc0_def abc1_def abc3_def)

lemma LoadFromFile_two: "LoadFromFile env0 abc3 ''two.bin'' = Inr (SQ_OK, two3)"
  by (simp add: LoadFromFile_def env0_def abc3_def two3_def free_if_set_def malloc_def
      fread_def SQ_OK_def)

lemma LoadFromFile_missing: "LoadFromFile env0 abc0 ''missing'' = Inr (SQ_ERROR, abc_released)"
  by (simp add: LoadFromFile_def env0_def abc0_def abc_released_def free_if_set_def)

lemma SetData_fresh: "SetData env0 Bytecode_new (Extern [1, 2, 3]) 3 = Inr (SQ_OK, abc0)"
  by (simp add: SetData_def Bytecode_new_def free_if_set_def malloc_def abc0_def)

lemma SQ_OK_neq_SQ_ERROR: "SQ_OK \<noteq> SQ_ERROR"
  by (simp add: SQ_OK_def SQ_ERROR_def)

subsection \<open>LoadFromFile\<close>

text \<open>
  What a load that succeeds does, from any buffer whose storage has not been released
  already: the data and the size are the file's, the cursor is the one before the call.
\<close>

lemma LoadFromFile_success:
  assumes "m_data b \<noteq> Dangling" and "files e f = Some c"
    and "0 < length c" and "length c < 2 ^ 63" and "fread_limit e f = None"
  shows "LoadFromFile e b f =
           Inr (SQ_OK, b\<lparr>m_data := Ptr c, m_size := of_nat (length c)\<rparr>)"
proof -
  obtain p where p: "free_if_set (m_data b) = Inr p"
    using assms(1) by (cases "m_data b") (simp_all add: free_if_set_def)
  have lt: "length c < 2 ^ 64" using assms(4) by simp
  have u: "unat (of_nat (length c) :: 64 word) = length c"
    using lt by (rule unat_small)
  have nz: "(of_nat (length c) :: 64 word) \<noteq> 0"
    using u assms(3) by (metis less_numeral_extra(3) unat_0)
  show ?thesis
    using p assms(2,5) nz u
    by (simp add: LoadFromFile_def Let_def fread_def memcpy_to_fresh)
qed

text \<open>
  C1. A load that succeeds sets the size and the data from the file but leaves the read
  cursor where it was: from the three-byte buffer read to its end, loading the two-byte file
  returns SQ_OK with size 2, the file's bytes, and the cursor still at 3.
\<close>

theorem LoadFromFile_keeps_cursor:
  "LoadFromFile env0 abc3 ''two.bin'' = Inr (SQ_OK, two3)
   \<and> Size two3 = 2 \<and> contents two3 = [9, 8] \<and> m_readpos two3 = 3 \<and> m_readpos two3 \<noteq> 0"
  by (simp add: LoadFromFile_two) (simp add: two3_def Size_def contents_def)

text \<open>
  C2. The cursor invariant does not survive LoadFromFile: a fresh buffer is given three
  bytes and read to the end, which keeps the cursor within the size; loading the two-byte
  file then succeeds and leaves the cursor at 3 beyond the size 2, and the next read of
  one byte leaves the block.
\<close>

theorem cursor_invariant_broken_by_LoadFromFile:
  "cursor_ok Bytecode_new
   \<and> SetData env0 Bytecode_new (Extern [1, 2, 3]) 3 = Inr (SQ_OK, abc0) \<and> cursor_ok abc0
   \<and> ReadData abc0 3 = Inr (3, [1, 2, 3], abc3) \<and> cursor_ok abc3
   \<and> LoadFromFile env0 abc3 ''two.bin'' = Inr (SQ_OK, two3) \<and> \<not> cursor_ok two3
   \<and> ReadData two3 1 = Inl OutOfBounds"
proof -
  have 1: "cursor_ok Bytecode_new"
    by (simp add: cursor_ok_def Bytecode_new_def)
  have 2: "SetData env0 Bytecode_new (Extern [1, 2, 3]) 3 = Inr (SQ_OK, abc0)"
    by (rule SetData_fresh)
  have 3: "ReadData abc0 3 = Inr (3, [1, 2, 3], abc3)"
    by (simp add: ReadData_def abc0_def abc3_def)
  have 4: "\<not> cursor_ok two3"
    by (simp add: cursor_ok_def two3_def)
  have 5: "ReadData two3 1 = Inl OutOfBounds"
    by (simp add: ReadData_def two3_def unat_max)
  show ?thesis
    using 1 2 3 4 5 LoadFromFile_two by simp
qed

text \<open>
  C3. A load from a path that cannot be opened returns SQ_ERROR, but the buffer is not
  empty afterwards: the size is still 3 and the pointer still holds the address of the
  released block, so that the next SetData releases the block a second time.
\<close>

theorem LoadFromFile_unopened_keeps_size:
  "files env0 ''missing'' = None
   \<and> LoadFromFile env0 abc0 ''missing'' = Inr (SQ_ERROR, abc_released)
   \<and> Size abc_released = 3 \<and> Data abc_released = Dangling
   \<and> SetData env0 abc_released (Extern [1]) 1 = Inl DoubleFree"
proof -
  have 1: "files env0 ''missing'' = None" by (simp add: env0_def)
  have 2: "Size abc_released = 3" "Data abc_released = Dangling"
    by (simp_all add: Size_def Data_def abc_released_def)
  have 3: "SetData env0 abc_released (Extern [1]) 1 = Inl DoubleFree"
    by (simp add: SetData_def abc_released_def free_if_set_def)
  show ?thesis
    using 1 2 3 LoadFromFile_missing by simp
qed

subsection \<open>ReadData\<close>

text \<open>
  C4. With one byte read of three, a request of \<open>2^64 - 1\<close> bytes makes \<open>m_readpos + size\<close>
  wrap around to 0, the test \<open>m_readpos + size <= m_size\<close> succeeds, and the copy is of
  \<open>2^64 - 1\<close> bytes instead of the two that remain: the copy leaves the block. The reader
  callback reaches the same call with the count \<open>-1\<close>.
\<close>

theorem ReadData_request_wraps:
  "storage_ok abc1 \<and> cursor_ok abc1 \<and> m_readpos abc1 + (- 1) \<le> m_size abc1
   \<and> ReadData abc1 (- 1) = Inl OutOfBounds
   \<and> BytecodeReader heap0 16 (- 1) = Inl OutOfBounds"
proof -
  have 1: "m_readpos abc1 + (- 1) \<le> m_size abc1"
    by (simp add: abc1_def)
  have 2: "ReadData abc1 (- 1) = Inl OutOfBounds"
    by (simp add: ReadData_def abc1_def unat_max)
  have 3: "BytecodeReader heap0 16 (- 1) = Inl OutOfBounds"
    using 2 by (simp add: BytecodeReader_def heap0_def)
  show ?thesis
    using 1 2 3 by simp
qed

text \<open>
  The round trip where it holds: from a buffer whose storage has not been released
  already, SetData of a byte sequence \<open>S\<close> held outside the buffer, then a caller that reads
  with request sizes \<open>ks\<close> whose sum reaches the length of \<open>S\<close> (each small enough that
  cursor plus request does not wrap), collects exactly \<open>S\<close>, and every call after that
  returns \<open>-1\<close> and delivers nothing.
\<close>

lemma SetData_drain_external:
  assumes "m_data b \<noteq> Dangling"
    and "\<forall>k\<in>set ks. length S + unat k < 2 ^ 64"
    and "length S \<le> sum_list (map unat ks)"
  shows "\<exists>b2. set_then_drain e b (Extern S) (of_nat (length S)) ks = Inr (S, b2)
           \<and> ReadData b2 k' = Inr (- 1, [], b2)"
proof -
  have lt: "length S < 2 ^ 64"
  proof (cases ks)
    case Nil
    then show ?thesis using assms(3) by simp
  next
    case (Cons k ks')
    then have "length S + unat k < 2 ^ 64" using assms(2) by simp
    then show ?thesis by simp
  qed
  define sz :: size_t where "sz = of_nat (length S)"
  have u: "unat sz = length S"
    unfolding sz_def using lt by (rule unat_small)
  define b1 where "b1 = b\<lparr>m_data := Ptr S, m_size := sz, m_readpos := 0\<rparr>"
  have set: "SetData e b (Extern S) sz = Inr (SQ_OK, b1)"
    using SetData_result [OF assms(1), of sz S e] u by (simp add: b1_def)
  have st: "storage_ok b1" by (simp add: storage_ok_def b1_def u)
  have cur: "cursor_ok b1" by (simp add: cursor_ok_def b1_def)
  have bnd: "\<forall>k\<in>set ks. unat (m_size b1) + unat k < 2 ^ 64"
    using assms(2) by (simp add: b1_def u)
  define b2 where "b2 = b1\<lparr>m_readpos := sz\<rparr>"
  have m: "min (sum_list (map unat ks)) (unat (m_size b1) - unat (m_readpos b1)) = length S"
    using assms(3) by (simp add: b1_def u)
  have c: "take (sum_list (map unat ks)) (drop (unat (m_readpos b1)) (contents b1)) = S"
    using assms(3) by (simp add: b1_def contents_def)
  have p: "b1\<lparr>m_readpos := m_readpos b1 + of_nat (length S)\<rparr> = b2"
    by (simp add: b1_def b2_def sz_def)
  have "drain ks b1 = Inr (S, b2)"
    using drain_reads [OF st cur bnd] by (simp only: m c p)
  then have "set_then_drain e b (Extern S) sz ks = Inr (S, b2)"
    using set by (simp add: set_then_drain_def)
  moreover have "ReadData b2 k' = Inr (- 1, [], b2)"
    by (rule ReadData_sentinel) (simp add: b2_def b1_def)
  ultimately show ?thesis
    unfolding sz_def by blast
qed

text \<open>
  C7. The round trip does not hold from every prior state. A fresh buffer is given three
  bytes, then a load from a path that cannot be opened releases the block and keeps the
  pointer; the SetData that opens the round trip frees the block a second time, and
  nothing is read back.
\<close>

theorem roundtrip_after_failed_load:
  "SetData env0 Bytecode_new (Extern [1, 2, 3]) 3 = Inr (SQ_OK, abc0)
   \<and> LoadFromFile env0 abc0 ''missing'' = Inr (SQ_ERROR, abc_released)
   \<and> set_then_drain env0 abc_released (Extern [4, 5, 6]) 3 [2, 2, 2] = Inl DoubleFree"
proof -
  have "set_then_drain env0 abc_released (Extern [4, 5, 6]) 3 [2, 2, 2] = Inl DoubleFree"
    by (simp add: set_then_drain_def SetData_def abc_released_def free_if_set_def)
  then show ?thesis
    using SetData_fresh LoadFromFile_missing by simp
qed

subsection \<open>SetData and AppendData\<close>

text \<open>
  SetData where it succeeds: from any buffer whose storage has not been released already,
  with a source outside the buffer that holds \<open>sz\<close> bytes, it returns SQ_OK and leaves a
  buffer whose content is exactly the first \<open>sz\<close> bytes of the source, whatever it held
  before, whose Size is \<open>sz\<close> and whose read cursor is 0.
\<close>

lemma SetData_external:
  assumes "m_data b \<noteq> Dangling" and "unat sz \<le> length src"
  shows "\<exists>b'. SetData e b (Extern src) sz = Inr (SQ_OK, b')
           \<and> m_data b' = Ptr (take (unat sz) src) \<and> length (contents b') = unat sz
           \<and> Size b' = sz \<and> m_readpos b' = 0"
  using SetData_result [OF assms, of e] assms(2)
  by (simp add: contents_def Size_def)

text \<open>
  C8. SetData does not succeed from every prior state and for every source. After a load
  from a path that cannot be opened the block is released and the pointer kept, and SetData
  frees it a second time. And with the buffer's own block as the source,
  \<open>SetData(Data(), Size())\<close>, the block is freed before the copy reads it.
\<close>

theorem SetData_frees_before_copy:
  "SetData env0 Bytecode_new (Extern [1, 2, 3]) 3 = Inr (SQ_OK, abc0)
   \<and> LoadFromFile env0 abc0 ''missing'' = Inr (SQ_ERROR, abc_released)
   \<and> SetData env0 abc_released (Extern [4, 5, 6]) 3 = Inl DoubleFree
   \<and> Data abc0 = Ptr [1, 2, 3] \<and> Size abc0 = 3
   \<and> SetData env0 abc0 (Own 0) (Size abc0) = Inl UseAfterFree"
proof -
  have 1: "SetData env0 abc_released (Extern [4, 5, 6]) 3 = Inl DoubleFree"
    by (simp add: SetData_def abc_released_def free_if_set_def)
  have 2: "Data abc0 = Ptr [1, 2, 3]" "Size abc0 = 3"
    by (simp_all add: Data_def Size_def abc0_def)
  have 3: "SetData env0 abc0 (Own 0) (Size abc0) = Inl UseAfterFree"
    by (simp add: SetData_def Size_def abc0_def free_if_set_def)
  show ?thesis
    using 1 2 3 SetData_fresh LoadFromFile_missing by simp
qed

text \<open>
  AppendData where it succeeds: on a buffer whose storage is in order, with a source
  outside the buffer that holds \<open>sz\<close> bytes (fewer than \<open>2^63\<close>, and the new size
  representable), it returns \<open>sz\<close>, increases Size by \<open>sz\<close>, leaves the old bytes in place
  followed by the \<open>sz\<close> bytes of the source, and does not move the read cursor.
\<close>

lemma AppendData_external:
  assumes "storage_ok b" and "unat sz \<le> length src"
    and "unat sz < 2 ^ 63" and "unat (Size b) + unat sz < 2 ^ 64"
  shows "\<exists>r b'. AppendData e b (Extern src) sz = Inr (r, b')
           \<and> sint r = int (unat sz)
           \<and> unat (Size b') = unat (Size b) + unat sz
           \<and> contents b' = contents b @ take (unat sz) src
           \<and> m_readpos b' = m_readpos b"
proof -
  have fit: "unat (m_size b) + unat sz < 2 ^ 64"
    using assms(4) by (simp add: Size_def)
  have r: "sint (ucast sz :: SQInteger) = int (unat sz)"
    using sint_small [OF assms(3)] by simp
  have u: "unat (m_size b + sz) = unat (m_size b) + unat sz"
    using fit by (simp add: unat_add_lem [THEN iffD1])
  show ?thesis
    using AppendData_result [OF assms(1,2) fit, of e] r u
    by (simp add: Size_def contents_def)
qed

text \<open>
  C6. AppendData does not append on every buffer state and for every source. After a load
  from a path that cannot be opened the block is released and the pointer kept, and
  AppendData hands the released block to \<open>realloc\<close>. And with the buffer's own block as the
  source, \<open>AppendData(Data(), Size())\<close>, \<open>realloc\<close> deallocates the block before the copy
  reads it.
\<close>

theorem AppendData_reallocs_before_copy:
  "SetData env0 Bytecode_new (Extern [1, 2, 3]) 3 = Inr (SQ_OK, abc0)
   \<and> LoadFromFile env0 abc0 ''missing'' = Inr (SQ_ERROR, abc_released)
   \<and> AppendData env0 abc_released (Extern [7, 7]) 2 = Inl UseAfterFree
   \<and> Data abc0 = Ptr [1, 2, 3] \<and> Size abc0 = 3
   \<and> AppendData env0 abc0 (Own 0) (Size abc0) = Inl UseAfterFree"
proof -
  have 1: "AppendData env0 abc_released (Extern [7, 7]) 2 = Inl UseAfterFree"
    by (simp add: AppendData_def abc_released_def)
  have 2: "Data abc0 = Ptr [1, 2, 3]" "Size abc0 = 3"
    by (simp_all add: Data_def Size_def abc0_def)
  have 3: "AppendData env0 abc0 (Own 0) (Size abc0) = Inl UseAfterFree"
    by (simp add: AppendData_def Size_def abc0_def)
  show ?thesis
    using 1 2 3 SetData_fresh LoadFromFile_missing by simp
qed

subsection \<open>The invariants through the operations other than LoadFromFile\<close>

lemma Bytecode_new_invariants: "storage_ok Bytecode_new \<and> cursor_ok Bytecode_new"
  by (simp add: storage_ok_def cursor_ok_def Bytecode_new_def)

lemma SetData_invariants:
  assumes "m_data b \<noteq> Dangling" and "unat sz \<le> length src"
    and "SetData e b (Extern src) sz = Inr (st, b')"
  shows "storage_ok b' \<and> cursor_ok b'"
  using SetData_result [OF assms(1,2), of e] assms(2,3)
  by (auto simp: storage_ok_def cursor_ok_def)

lemma AppendData_invariants:
  assumes "storage_ok b" and "cursor_ok b" and "unat sz \<le> length src"
    and fit: "unat (m_size b) + unat sz < 2 ^ 64"
    and "AppendData e b (Extern src) sz = Inr (r, b')"
  shows "storage_ok b' \<and> cursor_ok b'"
proof -
  have u: "unat (m_size b + sz) = unat (m_size b) + unat sz"
    using fit by (simp add: unat_add_lem [THEN iffD1])
  have b': "b' = b\<lparr>m_data := Ptr (contents b @ take (unat sz) src), m_size := m_size b + sz\<rparr>"
    using AppendData_result [OF assms(1,3) fit, of e] assms(5) by simp
  have "unat (m_readpos b) \<le> unat (m_size b)"
    using assms(2) by (simp add: cursor_ok_def word_le_nat_alt)
  then show ?thesis
    using assms(3) length_contents [OF assms(1)]
    by (simp add: b' storage_ok_def cursor_ok_def word_le_nat_alt u)
qed

lemma ReadData_invariants:
  assumes st: "storage_ok b" and cur: "cursor_ok b"
    and fit: "unat (m_readpos b) + unat sz < 2 ^ 64"
    and rd: "ReadData b sz = Inr (r, out, b')"
  shows "storage_ok b' \<and> cursor_ok b'"
proof (cases "m_readpos b = m_size b")
  case True
  then show ?thesis using rd st cur by (simp add: ReadData_sentinel)
next
  case False
  define n where "n = min (unat sz) (unat (m_size b) - unat (m_readpos b))"
  have b': "b' = b\<lparr>m_readpos := m_readpos b + of_nat n\<rparr>"
    using ReadData_in_range [OF st cur fit False] rd by (simp add: n_def)
  have le: "unat (m_readpos b) \<le> unat (m_size b)"
    using cur by (simp add: cursor_ok_def word_le_nat_alt)
  have nk: "n \<le> unat sz" by (simp add: n_def)
  have "n < 2 ^ 64" using fit nk by simp
  then have un: "unat (of_nat n :: size_t) = n" by (rule unat_small)
  have "unat (m_readpos b) + unat (of_nat n :: size_t) < 2 ^ 64"
    using fit nk by (simp only: un)
  then have "unat (m_readpos b + of_nat n) = unat (m_readpos b) + n"
    by (simp add: un unat_add_lem [THEN iffD1])
  then show ?thesis
    using st le by (simp add: b' cursor_ok_def word_le_nat_alt n_def)
qed

subsection \<open>SaveToFile\<close>

lemma fwrite_le: "fwrite e f n \<le> n"
  by (simp add: fwrite_def split: option.splits)

lemma fwrite_files [simp]: "fwrite (e\<lparr>files := fs\<rparr>) f n = fwrite e f n"
  by (simp add: fwrite_def)

lemma SaveToFile_empty:
  "m_data b = Null \<or> m_size b = 0 \<Longrightarrow> SaveToFile e b f = Inr (SQ_ERROR, b, e)"
  by (auto simp: SaveToFile_def)

lemma SaveToFile_unopened:
  "\<not> fopen_wb_ok e f \<Longrightarrow> SaveToFile e b f = Inr (SQ_ERROR, b, e)"
  by (simp add: SaveToFile_def)

lemma SaveToFile_written:
  assumes "m_data b = Ptr blk" and "length blk = unat (m_size b)"
    and "m_size b \<noteq> 0" and "fopen_wb_ok e f"
  shows "SaveToFile e b f =
           Inr (if fwrite e f (unat (m_size b)) = unat (m_size b) then SQ_OK else SQ_ERROR, b,
                e\<lparr>files := (files e)(f \<mapsto> take (fwrite e f (unat (m_size b))) blk)\<rparr>)"
proof -
  let ?n = "fwrite e f (unat (m_size b))"
  have "?n \<le> unat (m_size b)" by (rule fwrite_le)
  moreover have "unat (m_size b) < 2 ^ 64"
    using unsigned_less [of "m_size b", where ?'a = nat] by simp
  ultimately have "?n < 2 ^ 64" by simp
  then have "unat (of_nat ?n :: size_t) = ?n" by (rule unat_small)
  then have eq: "((of_nat ?n :: size_t) = m_size b) = (?n = unat (m_size b))"
    by (metis word_unat_eq_iff)
  show ?thesis
    using assms eq by (simp add: SaveToFile_def Let_def)
qed

text \<open>
  C5. On a buffer whose storage is in order SaveToFile returns one of the two status
  codes and never faults; the code is SQ_ERROR exactly when the buffer is empty, the file
  cannot be opened for writing, or \<open>fwrite\<close> reports fewer bytes than the size, so SQ_OK is
  returned only when the bytes written equal the size. On a freshly constructed buffer the
  code is SQ_ERROR.
\<close>

theorem SaveToFile_status:
  assumes "storage_ok b"
  shows "(\<exists>st e'. SaveToFile e b f = Inr (st, b, e')
            \<and> (st = SQ_OK \<or> st = SQ_ERROR)
            \<and> (st = SQ_ERROR) =
                ((m_data b = Null \<or> Size b = 0) \<or> \<not> fopen_wb_ok e f
                 \<or> fwrite e f (unat (Size b)) \<noteq> unat (Size b))
            \<and> (st = SQ_OK \<longrightarrow> fwrite e f (unat (Size b)) = unat (Size b)))
         \<and> SaveToFile e Bytecode_new f = Inr (SQ_ERROR, Bytecode_new, e)
         \<and> SQ_OK \<noteq> SQ_ERROR"
proof -
  have fresh: "SaveToFile e Bytecode_new f = Inr (SQ_ERROR, Bytecode_new, e)"
    by (rule SaveToFile_empty) (simp add: Bytecode_new_def)
  have main: "\<exists>st e'. SaveToFile e b f = Inr (st, b, e')
            \<and> (st = SQ_OK \<or> st = SQ_ERROR)
            \<and> (st = SQ_ERROR) =
                ((m_data b = Null \<or> Size b = 0) \<or> \<not> fopen_wb_ok e f
                 \<or> fwrite e f (unat (Size b)) \<noteq> unat (Size b))
            \<and> (st = SQ_OK \<longrightarrow> fwrite e f (unat (Size b)) = unat (Size b))"
  proof (cases "m_data b = Null \<or> m_size b = 0")
    case True
    then show ?thesis
      using SaveToFile_empty [OF True, of e f] SQ_OK_neq_SQ_ERROR
      by (auto simp: Size_def)
  next
    case False
    then obtain blk where blk: "m_data b = Ptr blk" "length blk = unat (m_size b)"
      using assms by (auto simp: storage_ok_def split: ptr.splits)
    have nz: "m_size b \<noteq> 0" using False by simp
    show ?thesis
    proof (cases "fopen_wb_ok e f")
      case True
      show ?thesis
        using SaveToFile_written [OF blk nz True] True False SQ_OK_neq_SQ_ERROR
        by (auto simp: Size_def)
    next
      case no: False
      show ?thesis
        using SaveToFile_unopened [OF no, of b] no SQ_OK_neq_SQ_ERROR
        by (auto simp: Size_def)
    qed
  qed
  show ?thesis
    using main fresh SQ_OK_neq_SQ_ERROR by blast
qed

theorem SaveToFile_status_witness:
  "(\<exists>e'. SaveToFile env0 abc1 ''out.bin'' = Inr (SQ_OK, abc1, e'))
   \<and> (\<exists>e'. SaveToFile env_full abc1 ''out.bin'' = Inr (SQ_ERROR, abc1, e'))
   \<and> SaveToFile env0 Bytecode_new ''out.bin'' = Inr (SQ_ERROR, Bytecode_new, env0)"
proof -
  have a: "fopen_wb_ok env0 ''out.bin''" "fwrite env0 ''out.bin'' (unat (Size abc1)) = unat (Size abc1)"
    "m_data abc1 \<noteq> Null" "Size abc1 \<noteq> 0"
    by (simp_all add: env0_def fwrite_def Size_def abc1_def)
  have b: "fwrite env_full ''out.bin'' (unat (Size abc1)) \<noteq> unat (Size abc1)"
    by (simp add: env_full_def env0_def fwrite_def Size_def abc1_def)
  have 1: "\<exists>e'. SaveToFile env0 abc1 ''out.bin'' = Inr (SQ_OK, abc1, e')"
    using SaveToFile_status [OF storage_ok_abc(2), of env0 "''out.bin''"] a by auto
  have 2: "\<exists>e'. SaveToFile env_full abc1 ''out.bin'' = Inr (SQ_ERROR, abc1, e')"
    using SaveToFile_status [OF storage_ok_abc(2), of env_full "''out.bin''"] b by auto
  have 3: "SaveToFile env0 Bytecode_new ''out.bin'' = Inr (SQ_ERROR, Bytecode_new, env0)"
    using SaveToFile_status [OF storage_ok_abc(2), of env0 "''out.bin''"] by blast
  show ?thesis using 1 2 3 by blast
qed

text \<open>
  C10. Whenever SaveToFile returns, with either status, the buffer it returns is the
  buffer it was given: data, size and cursor are untouched. On a buffer whose storage is
  in order it does return.
\<close>

theorem SaveToFile_frame:
  "(\<forall>st b' e'. SaveToFile e b f = Inr (st, b', e') \<longrightarrow>
      b' = b \<and> m_data b' = m_data b \<and> m_size b' = m_size b \<and> m_readpos b' = m_readpos b)
   \<and> (storage_ok b \<longrightarrow> (\<exists>st e'. SaveToFile e b f = Inr (st, b, e')))"
proof -
  have 1: "\<forall>st b' e'. SaveToFile e b f = Inr (st, b', e') \<longrightarrow>
      b' = b \<and> m_data b' = m_data b \<and> m_size b' = m_size b \<and> m_readpos b' = m_readpos b"
    by (auto simp: SaveToFile_def Let_def split: if_splits sum.splits)
  have 2: "storage_ok b \<longrightarrow> (\<exists>st e'. SaveToFile e b f = Inr (st, b, e'))"
  proof
    assume st: "storage_ok b"
    show "\<exists>st e'. SaveToFile e b f = Inr (st, b, e')"
    proof (cases "m_data b = Null \<or> m_size b = 0")
      case True
      then show ?thesis using SaveToFile_empty [OF True, of e f] by blast
    next
      case False
      then obtain blk where blk: "m_data b = Ptr blk" "length blk = unat (m_size b)"
        using st by (auto simp: storage_ok_def split: ptr.splits)
      have nz: "m_size b \<noteq> 0" using False by simp
      show ?thesis
      proof (cases "fopen_wb_ok e f")
        case True
        show ?thesis using SaveToFile_written [OF blk nz True] by blast
      next
        case no: False
        show ?thesis using SaveToFile_unopened [OF no, of b] by blast
      qed
    qed
  qed
  show ?thesis using 1 2 by blast
qed

theorem SaveToFile_frame_witness:
  "\<exists>e'. SaveToFile env0 abc1 ''out.bin'' = Inr (SQ_OK, abc1, e')
     \<and> files e' ''out.bin'' = Some [1, 2, 3]"
proof -
  have ev: "SaveToFile env0 abc1 ''out.bin'' =
      Inr (SQ_OK, abc1, env0\<lparr>files := (files env0)(''out.bin'' \<mapsto> [1, 2, 3])\<rparr>)"
    by (simp add: SaveToFile_def Let_def env0_def abc1_def fwrite_def SQ_OK_def)
  have "\<exists>st e'. SaveToFile env0 abc1 ''out.bin'' = Inr (st, abc1, e')"
    using SaveToFile_frame [of env0 abc1 "''out.bin''"] storage_ok_abc(2) by blast
  then show ?thesis using ev by simp
qed

subsection \<open>The callbacks\<close>

text \<open>
  C9. When \<open>user_data\<close> is the address of a buffer, BytecodeReader returns what ReadData
  returns on that buffer for the same count, fault or sentinel included, delivers the same
  bytes, and stores the buffer that ReadData leaves back at the address; BytecodeWriter
  does the same with AppendData. The conversion of the count from \<open>SQInteger\<close> to \<open>size_t\<close>
  keeps all 64 bits.
\<close>

theorem callbacks_forward:
  assumes "h user_data = Some b"
  shows "BytecodeReader h user_data n =
           (case ReadData b n of
              Inl f \<Rightarrow> Inl f
            | Inr (r, out, b') \<Rightarrow> Inr (r, out, h(user_data \<mapsto> b')))
         \<and> BytecodeWriter e h user_data src m =
           (case AppendData e b src m of
              Inl f \<Rightarrow> Inl f
            | Inr (r, b') \<Rightarrow> Inr (r, h(user_data \<mapsto> b')))"
  using assms by (simp add: BytecodeReader_def BytecodeWriter_def)

theorem callbacks_forward_witness:
  "ReadData abc1 5 = Inr (2, [2, 3], abc3)
   \<and> BytecodeReader heap0 16 5 = Inr (2, [2, 3], heap0(16 \<mapsto> abc3))
   \<and> ReadData abc3 5 = Inr (- 1, [], abc3)
   \<and> BytecodeReader (heap0(16 \<mapsto> abc3)) 16 5 = Inr (- 1, [], heap0(16 \<mapsto> abc3))
   \<and> AppendData env0 abc1 (Extern [7, 7]) 2 =
       Inr (2, \<lparr>m_data = Ptr [1, 2, 3, 7, 7], m_size = 5, m_readpos = 1\<rparr>)
   \<and> BytecodeWriter env0 heap0 16 (Extern [7, 7]) 2 =
       Inr (2, heap0(16 \<mapsto> \<lparr>m_data = Ptr [1, 2, 3, 7, 7], m_size = 5, m_readpos = 1\<rparr>))"
proof -
  have h: "heap0 16 = Some abc1" by (simp add: heap0_def)
  have h': "(heap0(16 \<mapsto> abc3)) 16 = Some abc3" by simp
  have r1: "ReadData abc1 5 = Inr (2, [2, 3], abc3)"
    by (simp add: ReadData_def abc1_def abc3_def)
  have r2: "ReadData abc3 5 = Inr (- 1, [], abc3)"
    by (simp add: ReadData_def abc3_def)
  have a: "AppendData env0 abc1 (Extern [7, 7]) 2 =
       Inr (2, \<lparr>m_data = Ptr [1, 2, 3, 7, 7], m_size = 5, m_readpos = 1\<rparr>)"
    by (simp add: AppendData_def abc1_def)
  show ?thesis
    using callbacks_forward [of heap0 16 abc1 5 env0 "Extern [7, 7]" 2]
      callbacks_forward [of "heap0(16 \<mapsto> abc3)" 16 abc3 5 env0 "Extern []" 0] h h' r1 r2 a
    by simp
qed

end
